theory Spec2Isabelle
  imports Main
begin

text \<open>
  The agent loop of the repository: the SSE frame decoder \<open>parseEvent\<close>, the content
  assembler and turn runner \<open>streamClaudeTurn\<close>, the tool dispatcher \<open>runTool\<close> and the
  orchestrator \<open>createAgentResponse\<close>. The development follows the variant that sends
  newline-delimited events; the variant of \<open>lib/agent.ts\<close> has the same \<open>parseEvent\<close>,
  the same read loop and the same handlers, and differs in where it writes.
\<close>

section \<open>Strings as the source uses them\<close>

text \<open>
  A JavaScript string is a sequence of code units; here it is a \<^typ>\<open>string\<close>, so the
  development covers the code units below 256. The string methods the agent calls are
  written out: \<open>split("\n")\<close>, \<open>trim()\<close>, \<open>startsWith\<close>, \<open>slice\<close>,
  \<open>indexOf\<close> and \<open>join("")\<close> (which is \<^const>\<open>concat\<close>).
\<close>

definition LF :: char where
  "LF = CHR 0x0A"

text \<open>The white space and line terminators that \<open>String.prototype.trim\<close> removes:
  TAB, LF, VT, FF, CR, SP and NBSP.\<close>

definition isWhiteSpace :: "char \<Rightarrow> bool" where
  "isWhiteSpace c \<longleftrightarrow>
     c = CHR 0x09 \<or> c = CHR 0x0A \<or> c = CHR 0x0B \<or> c = CHR 0x0C \<or> c = CHR 0x0D \<or>
     c = CHR 0x20 \<or> c = CHR 0xA0"

definition trim :: "string \<Rightarrow> string" where
  "trim s = rev (dropWhile isWhiteSpace (rev (dropWhile isWhiteSpace s)))"

definition startsWith :: "string \<Rightarrow> string \<Rightarrow> bool" where
  "startsWith s p \<longleftrightarrow> take (length p) s = p"

text \<open>\<open>s.split("\n")\<close>: the pieces between line feeds; never the empty array.\<close>

fun split_lines :: "string \<Rightarrow> string list" where
  "split_lines [] = [[]]"
| "split_lines (c # cs) =
     (if c = LF then [] # split_lines cs
      else (case split_lines cs of
              [] \<Rightarrow> [[c]]
            | l # ls \<Rightarrow> (c # l) # ls))"

text \<open>\<open>s.indexOf(p)\<close>: the first position where \<open>p\<close> occurs; \<open>None\<close> is the
  source's \<open>-1\<close>.\<close>

fun indexOf :: "string \<Rightarrow> string \<Rightarrow> nat option" where
  "indexOf [] p = (if p = [] then Some 0 else None)"
| "indexOf (c # cs) p =
     (if startsWith (c # cs) p then Some 0 else map_option Suc (indexOf cs p))"

section \<open>JSON values\<close>

text \<open>
  The values \<open>JSON.parse\<close> returns. The type \<open>'n\<close> is the type of JSON numbers up to
  numeric equality; \<open>undefined\<close> is \<open>None\<close> of \<open>'n json option\<close>. An object lists
  its own properties, each key once.
\<close>

datatype 'n json =
    JNull
  | JBool bool
  | JNum 'n
  | JStr string
  | JArr "'n json list"
  | JObj "(string \<times> 'n json) list"

text \<open>\<open>v?.k\<close> for the property names the agent reads (none of them is inherited from a
  prototype): \<open>undefined\<close> unless \<open>v\<close> is an object with that key.\<close>

fun getProp :: "'n json option \<Rightarrow> string \<Rightarrow> 'n json option" where
  "getProp (Some (JObj kvs)) k = map_of kvs k"
| "getProp _ k = None"

text \<open>\<open>!v\<close> is false exactly for the truthy values.\<close>

fun truthy :: "'n::zero json option \<Rightarrow> bool" where
  "truthy None = False"
| "truthy (Some JNull) = False"
| "truthy (Some (JBool b)) = b"
| "truthy (Some (JNum n)) = (n \<noteq> 0)"
| "truthy (Some (JStr s)) = (s \<noteq> [])"
| "truthy (Some (JArr xs)) = True"
| "truthy (Some (JObj kvs)) = True"

section \<open>The SSE frame decoder: \<open>parseEvent\<close>\<close>

record 'n AnthropicEvent =
  event :: string
  data :: "'n json option"

text \<open>The \<open>for\<close> loop of \<open>parseEvent\<close> over the lines of one frame: it carries the
  event name and the data lines collected so far.\<close>

fun scanLines :: "string list \<Rightarrow> string \<times> string list \<Rightarrow> string \<times> string list" where
  "scanLines [] acc = acc"
| "scanLines (line # lines) (ev, dataLines) =
     (if trim line = [] then scanLines lines (ev, dataLines)
      else if startsWith line ''event:'' then
        scanLines lines (trim (drop (length ''event:'') line), dataLines)
      else if startsWith line ''data:'' then
        scanLines lines (ev, dataLines @ [trim (drop (length ''data:'') line)])
      else scanLines lines (ev, dataLines))"

text \<open>The locals of \<open>parseEvent\<close> after the loop: \<open>event\<close>, \<open>dataLines\<close> and the payload
  text \<open>dataPayload = dataLines.join("")\<close>.\<close>

definition eventName :: "string \<Rightarrow> string" where
  "eventName raw = fst (scanLines (split_lines raw) ([], []))"

definition dataLines :: "string \<Rightarrow> string list" where
  "dataLines raw = snd (scanLines (split_lines raw) ([], []))"

definition dataPayload :: "string \<Rightarrow> string" where
  "dataPayload raw = concat (dataLines raw)"

text \<open>\<open>parseEvent\<close>; \<open>parse\<close> is \<open>JSON.parse\<close>, with \<open>None\<close> for a SyntaxError.
  The result \<open>None\<close> is the source's \<open>null\<close>.\<close>

definition parseEvent :: "(string \<Rightarrow> 'n json option) \<Rightarrow> string \<Rightarrow> 'n AnthropicEvent option" where
  "parseEvent parse raw =
     (if eventName raw = [] \<and> dataLines raw = [] then None
      else if dataPayload raw = [] then Some \<lparr>event = eventName raw, data = None\<rparr>
      else if dataPayload raw = ''[DONE]'' then
        Some \<lparr>event = eventName raw, data = Some (JStr ''[DONE]'')\<rparr>
      else (case parse (dataPayload raw) of
              Some v \<Rightarrow> Some \<lparr>event = eventName raw, data = Some v\<rparr>
            | None \<Rightarrow> None))"

section \<open>Messages, tool calls and outbound events\<close>

datatype 'n MessageContent =
    TextBlock string
  | ToolUseBlock string string "'n json"
  | ToolResultBlock string string

datatype Role = User | Assistant | Tool

text \<open>
  \<open>content\<close> is a JavaScript array that the assembler writes at positions taken from the
  wire (\<open>content[index] = ...\<close>, for any number \<open>index\<close>): a map from positions to
  blocks.
\<close>

record 'n AgentMessage =
  role :: Role
  content :: "'n \<rightharpoonup> 'n MessageContent"

record 'n AgentSession =
  session_id :: string
  messages :: "'n AgentMessage list"

record 'n ToolCall =
  call_id :: string
  call_name :: string
  call_input :: "'n json"
  call_index :: 'n

record PendingToolInput =
  pending_id :: string
  pending_name :: string
  pending_buffer :: string

text \<open>A trace step is its title and its detail; the result value of a successful tool run
  is taken to be a JSON value.\<close>

type_synonym ExecutionTrace = "string \<times> string"

datatype 'n ToolRunResponse =
    ToolRunSuccess "'n json" "string list" "ExecutionTrace list"
  | ToolRunError string "ExecutionTrace list"

datatype 'n AgentStreamEvent =
    AssistantDelta string
  | MessageEvent "'n AgentMessage"
  | ToolRequest string string
  | ToolCallEvent string string "'n json"
  | ToolResultEvent string bool "'n ToolRunResponse"
  | SessionEvent "'n AgentSession"
  | ErrorEvent string
  | DoneEvent

text \<open>What a \<open>throw\<close> carries: an \<open>Error\<close> with its message, or any other value.\<close>

datatype thrown = Error string | NonError

text \<open>How a handler or a loop body ends: it goes on, it returns \<open>true\<close> (the turn is
  over), or it throws.\<close>

datatype 'a signal = Next 'a | Finished 'a | Raised thrown 'a

section \<open>The platform\<close>

text \<open>
  \<open>JSON.parse\<close>, number-to-string conversion and \<open>crypto.randomUUID\<close> belong to the
  platform, not to the repository: they are parameters. The k-th call of
  \<open>crypto.randomUUID()\<close> within one exchange returns \<open>randomUUID k\<close>.
\<close>

record 'n platform =
  JSON_parse :: "string \<Rightarrow> 'n json option"
  JSON_stringify :: "'n json \<Rightarrow> string"
  Number_toString :: "'n \<Rightarrow> string"
  randomUUID :: "nat \<Rightarrow> string"

text \<open>
  \<open>String(v)\<close> on a parsed JSON value; \<open>None\<close> is the TypeError of an object whose own
  \<open>toString\<close> property (never callable in parsed JSON) hides the inherited one.
  An array joins its elements with commas, \<open>null\<close> elements as the empty string.
\<close>

fun String_js :: "('n \<Rightarrow> string) \<Rightarrow> 'n json \<Rightarrow> string option"
  and join_js :: "('n \<Rightarrow> string) \<Rightarrow> 'n json list \<Rightarrow> string option" where
  "String_js num JNull = Some ''null''"
| "String_js num (JBool b) = Some (if b then ''true'' else ''false'')"
| "String_js num (JNum n) = Some (num n)"
| "String_js num (JStr s) = Some s"
| "String_js num (JArr xs) = join_js num xs"
| "String_js num (JObj kvs) =
     (if map_of kvs ''toString'' = None then Some ''[object Object]'' else None)"
| "join_js num [] = Some []"
| "join_js num (x # xs) =
     (case (case x of JNull \<Rightarrow> Some [] | _ \<Rightarrow> String_js num x) of
        None \<Rightarrow> None
      | Some s \<Rightarrow>
          (case xs of
             [] \<Rightarrow> Some s
           | _ \<Rightarrow> (case join_js num xs of None \<Rightarrow> None | Some r \<Rightarrow> Some (s @ '','' @ r))))"

text \<open>\<open>String(v ?? "")\<close>: \<open>undefined\<close> and \<open>null\<close> give the empty string.\<close>

fun String_or_empty :: "('n \<Rightarrow> string) \<Rightarrow> 'n json option \<Rightarrow> string option" where
  "String_or_empty num None = Some []"
| "String_or_empty num (Some JNull) = Some []"
| "String_or_empty num (Some v) = String_js num v"

section \<open>The content assembler\<close>

text \<open>
  The locals of \<open>streamClaudeTurn\<close> that the handlers of \<open>processBuffer\<close> read and write,
  with what the two callbacks have sent so far and the number of UUIDs drawn. The field
  \<open>decoded\<close> is an observation only: the wire events that \<open>parseEvent\<close> has returned in
  this turn, in order; nothing reads it.
\<close>

record 'n turn_state =
  assistantContent :: "'n \<rightharpoonup> 'n MessageContent"
  toolCalls :: "'n ToolCall list"
  pendingToolInputs :: "'n \<rightharpoonup> PendingToolInput"
  emitted :: "'n AgentStreamEvent list"
  uuids :: nat
  decoded :: "'n AnthropicEvent list"

text \<open>The two callbacks that \<open>createAgentResponse\<close> passes to \<open>streamClaudeTurn\<close>.\<close>

definition emitText :: "string \<Rightarrow> 'n AgentStreamEvent list \<Rightarrow> 'n AgentStreamEvent list" where
  "emitText chunk out = (if chunk \<noteq> [] then out @ [AssistantDelta chunk] else out)"

fun is_AssistantDelta :: "'n AgentStreamEvent \<Rightarrow> bool" where
  "is_AssistantDelta (AssistantDelta t) = True"
| "is_AssistantDelta _ = False"

definition emitEvent :: "'n AgentStreamEvent \<Rightarrow> 'n AgentStreamEvent list \<Rightarrow> 'n AgentStreamEvent list" where
  "emitEvent ev out = (if \<not> is_AssistantDelta ev then out @ [ev] else out)"

definition TypeError :: thrown where
  "TypeError = Error ''Cannot convert object to primitive value''"

text \<open>\<open>case "content_block_start"\<close>.\<close>

definition on_content_block_start ::
  "'n::zero platform \<Rightarrow> 'n json option \<Rightarrow> 'n turn_state \<Rightarrow> 'n turn_state signal" where
  "on_content_block_start js payload st =
     (case getProp payload ''index'' of
        Some (JNum index) \<Rightarrow>
          (let content_block = getProp payload ''content_block'' in
           if \<not> truthy content_block then Next st
           else if getProp content_block ''type'' = Some (JStr ''text'') then
             Next (st\<lparr>assistantContent := (assistantContent st)(index \<mapsto> TextBlock [])\<rparr>)
           else if getProp content_block ''type'' = Some (JStr ''tool_use'') then
             (let (drawn, id_opt) =
                    (case getProp content_block ''id'' of
                       None \<Rightarrow> (Suc (uuids st), Some (randomUUID js (uuids st)))
                     | Some JNull \<Rightarrow> (Suc (uuids st), Some (randomUUID js (uuids st)))
                     | Some v \<Rightarrow> (uuids st, String_js (Number_toString js) v))
              in case id_opt of
                   None \<Rightarrow> Raised TypeError (st\<lparr>uuids := drawn\<rparr>)
                 | Some tid \<Rightarrow>
                     (case String_or_empty (Number_toString js) (getProp content_block ''name'') of
                        None \<Rightarrow> Raised TypeError (st\<lparr>uuids := drawn\<rparr>)
                      | Some tname \<Rightarrow>
                          Next (st\<lparr>assistantContent :=
                                     (assistantContent st)(index \<mapsto> ToolUseBlock tid tname (JObj [])),
                                   pendingToolInputs :=
                                     (pendingToolInputs st)(index \<mapsto>
                                        \<lparr>pending_id = tid, pending_name = tname, pending_buffer = []\<rparr>),
                                   emitted := emitEvent (ToolRequest tid tname) (emitted st),
                                   uuids := drawn\<rparr>)))
           else Next st)
      | _ \<Rightarrow> Next st)"

text \<open>\<open>case "content_block_delta"\<close>.\<close>

definition on_content_block_delta ::
  "'n::zero platform \<Rightarrow> 'n json option \<Rightarrow> 'n turn_state \<Rightarrow> 'n turn_state signal" where
  "on_content_block_delta js payload st =
     (case getProp payload ''index'' of
        Some (JNum index) \<Rightarrow>
          (let delta = getProp payload ''delta'' in
           if \<not> truthy delta then Next st
           else if getProp delta ''type'' = Some (JStr ''text_delta'') then
             (case String_or_empty (Number_toString js) (getProp delta ''text'') of
                None \<Rightarrow> Raised TypeError st
              | Some text \<Rightarrow>
                  (let st1 = (case assistantContent st index of
                                Some (TextBlock t) \<Rightarrow>
                                  st\<lparr>assistantContent :=
                                       (assistantContent st)(index \<mapsto> TextBlock (t @ text))\<rparr>
                              | _ \<Rightarrow> st)
                   in Next (if text \<noteq> [] then st1\<lparr>emitted := emitText text (emitted st1)\<rparr>
                            else st1)))
           else if getProp delta ''type'' = Some (JStr ''input_json_delta'') then
             (case String_or_empty (Number_toString js) (getProp delta ''partial_json'') of
                None \<Rightarrow> Raised TypeError st
              | Some partial \<Rightarrow>
                  (case pendingToolInputs st index of
                     Some pending \<Rightarrow>
                       Next (st\<lparr>pendingToolInputs :=
                                  (pendingToolInputs st)(index \<mapsto>
                                     pending\<lparr>pending_buffer := pending_buffer pending @ partial\<rparr>)\<rparr>)
                   | None \<Rightarrow> Next st))
           else Next st)
      | _ \<Rightarrow> Next st)"

text \<open>The tool input of a closed block: the parse of the trimmed buffer, and the empty
  object when the trimmed buffer is empty or \<open>JSON.parse\<close> throws.\<close>

definition parseToolInput :: "'n platform \<Rightarrow> string \<Rightarrow> 'n json" where
  "parseToolInput js buf =
     (let inputBuffer = trim buf in
      if inputBuffer \<noteq> [] then
        (case JSON_parse js inputBuffer of Some v \<Rightarrow> v | None \<Rightarrow> JObj [])
      else JObj [])"

text \<open>\<open>case "content_block_stop"\<close>.\<close>

definition on_content_block_stop ::
  "'n platform \<Rightarrow> 'n json option \<Rightarrow> 'n turn_state \<Rightarrow> 'n turn_state signal" where
  "on_content_block_stop js payload st =
     (case getProp payload ''index'' of
        Some (JNum index) \<Rightarrow>
          (case pendingToolInputs st index of
             None \<Rightarrow> Next st
           | Some pending \<Rightarrow>
               (let st1 = st\<lparr>pendingToolInputs := (pendingToolInputs st)(index := None)\<rparr>;
                    input = parseToolInput js (pending_buffer pending)
                in case assistantContent st1 index of
                     Some (ToolUseBlock bid bname old) \<Rightarrow>
                       Next (st1\<lparr>assistantContent :=
                                   (assistantContent st1)(index \<mapsto> ToolUseBlock bid bname input),
                                 toolCalls := toolCalls st1 @
                                   [\<lparr>call_id = bid, call_name = bname,
                                     call_input = input, call_index = index\<rparr>]\<rparr>)
                   | _ \<Rightarrow> Next st1))
      | _ \<Rightarrow> Next st)"

text \<open>The \<open>switch (parsed.event)\<close> of \<open>processBuffer\<close>.\<close>

definition dispatch ::
  "'n::zero platform \<Rightarrow> 'n AnthropicEvent \<Rightarrow> 'n turn_state \<Rightarrow> 'n turn_state signal" where
  "dispatch js parsed st =
     (if event parsed = ''content_block_start'' then on_content_block_start js (data parsed) st
      else if event parsed = ''content_block_delta'' then on_content_block_delta js (data parsed) st
      else if event parsed = ''content_block_stop'' then on_content_block_stop js (data parsed) st
      else if event parsed = ''message_stop'' then Finished st
      else if event parsed = ''error'' then Raised (Error ''Claude streaming error'') st
      else Next st)"

section \<open>The turn runner: \<open>streamClaudeTurn\<close>\<close>

lemma indexOf_bound:
  "indexOf s p = Some i \<Longrightarrow> i + length p \<le> length s"
proof (induction s arbitrary: i)
  case Nil
  then show ?case by (simp split: if_splits)
next
  case (Cons c cs)
  show ?case
  proof (cases "startsWith (c # cs) p")
    case True
    then have "length (take (length p) (c # cs)) = length p"
      by (simp only: startsWith_def)
    then have "length p \<le> length (c # cs)"
      by simp
    with True Cons.prems show ?thesis by simp
  next
    case False
    with Cons.prems obtain j where "indexOf cs p = Some j" "i = Suc j" by auto
    with Cons.IH show ?thesis by simp
  qed
qed

text \<open>
  \<open>processBuffer\<close>: the \<open>while\<close> loop that cuts the buffer at each blank line and hands
  the frame to \<open>parseEvent\<close> and then to the \<open>switch\<close>. It returns the buffer it leaves
  and the state; \<open>Next\<close> is the source's \<open>return false\<close>, \<open>Finished\<close> its
  \<open>return true\<close>.
\<close>

function processBuffer ::
  "'n::zero platform \<Rightarrow> string \<Rightarrow> 'n turn_state \<Rightarrow> (string \<times> 'n turn_state) signal" where
  "processBuffer js buffer st =
     (case indexOf buffer [LF, LF] of
        None \<Rightarrow> Next (buffer, st)
      | Some eventBoundary \<Rightarrow>
          (case parseEvent (JSON_parse js) (take eventBoundary buffer) of
             None \<Rightarrow> processBuffer js (drop (eventBoundary + 2) buffer) st
           | Some parsed \<Rightarrow>
               if data parsed = Some (JStr ''[DONE]'') then
                 Finished (drop (eventBoundary + 2) buffer, st\<lparr>decoded := decoded st @ [parsed]\<rparr>)
               else
                 (case dispatch js parsed (st\<lparr>decoded := decoded st @ [parsed]\<rparr>) of
                    Next st' \<Rightarrow> processBuffer js (drop (eventBoundary + 2) buffer) st'
                  | Finished st' \<Rightarrow> Finished (drop (eventBoundary + 2) buffer, st')
                  | Raised e st' \<Rightarrow> Raised e (drop (eventBoundary + 2) buffer, st'))))"
  by pat_completeness auto
termination
  by (relation "measure (\<lambda>(js, buffer, st). length buffer)") (auto dest: indexOf_bound)

declare processBuffer.simps [simp del]

text \<open>
  The \<open>TextDecoder\<close>: a machine that consumes the bytes of each chunk one at a time,
  keeps what an incomplete sequence needs in its state, and is flushed by the final
  \<open>decode()\<close>.
\<close>

record ('b, 'd) TextDecoder =
  decodeByte :: "'d \<Rightarrow> 'b \<Rightarrow> string \<times> 'd"
  decodeEnd :: "'d \<Rightarrow> string"
  decoderInit :: 'd

fun decode :: "('b, 'd) TextDecoder \<Rightarrow> 'd \<Rightarrow> 'b list \<Rightarrow> string \<times> 'd" where
  "decode dec d [] = ([], d)"
| "decode dec d (b # bs) =
     (case decodeByte dec d b of
        (s, d') \<Rightarrow> (case decode dec d' bs of (r, d'') \<Rightarrow> (s @ r, d'')))"

datatype 'a outcome = Returned 'a | Threw thrown 'a

text \<open>
  The \<open>while (true)\<close> loop over \<open>reader.read()\<close>: the chunks of the body in order, then
  \<open>done\<close>.
\<close>

fun readLoop ::
  "'n::zero platform \<Rightarrow> ('b, 'd) TextDecoder \<Rightarrow> 'b list list \<Rightarrow>
     'd \<Rightarrow> string \<Rightarrow> 'n turn_state \<Rightarrow> 'n turn_state outcome" where
  "readLoop js dec [] d buffer st =
     (case processBuffer js (buffer @ decodeEnd dec d) st of
        Next (b, st') \<Rightarrow> Returned st'
      | Finished (b, st') \<Rightarrow> Returned st'
      | Raised e (b, st') \<Rightarrow> Threw e st')"
| "readLoop js dec (chunk # rest) d buffer st =
     (case decode dec d chunk of
        (text, d') \<Rightarrow>
          (case processBuffer js (buffer @ text) st of
             Next (b, st') \<Rightarrow> readLoop js dec rest d' b st'
           | Finished (b, st') \<Rightarrow> Returned st'
           | Raised e (b, st') \<Rightarrow> Threw e st'))"

text \<open>What \<open>fetch\<close> gives: a rejection, or a response with its status and its body, a
  finite sequence of chunks that are read without failure (\<open>None\<close> for no body).\<close>

record 'b Response =
  ok :: bool
  status :: nat
  body :: "'b list list option"

datatype 'b fetched = Rejected thrown | Resolved "'b Response"

definition digit :: "nat \<Rightarrow> char" where
  "digit n = char_of (48 + n)"

fun decimal :: "nat \<Rightarrow> string" where
  "decimal n = (if n < 10 then [digit n] else decimal (n div 10) @ [digit (n mod 10)])"

declare decimal.simps [simp del]

text \<open>\<open>response.text()\<close>: the whole body decoded.\<close>

definition responseText :: "('b, 'd) TextDecoder \<Rightarrow> 'b list list \<Rightarrow> string" where
  "responseText dec chunks =
     (case decode dec (decoderInit dec) (concat chunks) of (text, d) \<Rightarrow> text @ decodeEnd dec d)"

text \<open>
  \<open>streamClaudeTurn\<close>. The request is not modelled beyond its outcome \<open>fetched\<close>; the
  turn state it starts from carries what was sent and drawn before the turn.
\<close>

definition streamClaudeTurn ::
  "'n::zero platform \<Rightarrow> ('b, 'd) TextDecoder \<Rightarrow> string option \<Rightarrow> 'b fetched \<Rightarrow>
     'n AgentStreamEvent list \<Rightarrow> nat \<Rightarrow> 'n turn_state outcome" where
  "streamClaudeTurn js dec apiKey fetchResult out drawn =
     (let st0 = \<lparr>assistantContent = Map.empty, toolCalls = [], pendingToolInputs = Map.empty,
                  emitted = out, uuids = drawn, decoded = []\<rparr>
      in if apiKey = None \<or> apiKey = Some [] then
           Threw (Error ''Missing ANTHROPIC_API_KEY environment variable.'') st0
         else
           (case fetchResult of
              Rejected e \<Rightarrow> Threw e st0
            | Resolved response \<Rightarrow>
                (case body response of
                   None \<Rightarrow> Threw (Error ''Claude API did not return a response body'') st0
                 | Some chunks \<Rightarrow>
                     if \<not> ok response then
                       Threw (Error (''Claude API error: '' @ decimal (status response) @ '' '' @
                                     responseText dec chunks)) st0
                     else readLoop js dec chunks (decoderInit dec) [] st0)))"

section \<open>The tool invocation step: \<open>runTool\<close> and \<open>renderToolResult\<close>\<close>

text \<open>
  The bodies of the five registered tools stay outside: the sandboxed runner, the
  knowledge base and the task list are collaborators, which may change their own state
  \<open>'w\<close> and may throw. \<open>listCapabilities\<close> and \<open>explainGuardrails\<close> return fixed values.
\<close>

record ('n, 'w) host =
  runJavaScript :: "string \<Rightarrow> 'w \<Rightarrow> (thrown + 'n ToolRunResponse) \<times> 'w"
  listCapabilities :: "'n ToolRunResponse"
  explainGuardrails :: "'n ToolRunResponse"
  runKnowledgeBaseLookup :: "'n json \<Rightarrow> 'w \<Rightarrow> (thrown + 'n ToolRunResponse) \<times> 'w"
  runTodoManager :: "'n json \<Rightarrow> 'w \<Rightarrow> (thrown + 'n ToolRunResponse) \<times> 'w"


text \<open>\<open>runTool\<close>. Reading \<open>input.code\<close> throws a TypeError when \<open>input\<close> is \<open>null\<close>.\<close>

definition runTool ::
  "('n, 'w) host \<Rightarrow> string \<Rightarrow> 'n json \<Rightarrow> 'w \<Rightarrow> (thrown + 'n ToolRunResponse) \<times> 'w" where
  "runTool h toolName input w =
     (if toolName = ''run_javascript'' then
        (case input of
           JNull \<Rightarrow> (Inl (Error ''Cannot read properties of null (reading 'code')''), w)
         | _ \<Rightarrow>
             (case getProp (Some input) ''code'' of
                Some (JStr code) \<Rightarrow> runJavaScript h code w
              | _ \<Rightarrow>
                  (Inr (ToolRunError ''Expected `code` to be a string.''
                     [(''Validate input'',
                       ''Guard clause triggered because code was missing or not a string.'')]),
                   w)))
      else if toolName = ''list_capabilities'' then (Inr (listCapabilities h), w)
      else if toolName = ''explain_guardrails'' then (Inr (explainGuardrails h), w)
      else if toolName = ''kb_lookup'' then runKnowledgeBaseLookup h input w
      else if toolName = ''todo_manager'' then runTodoManager h input w
      else
        (Inr (ToolRunError (''Unknown tool: '' @ toolName)
           [(''Lookup tool'',
             ''The orchestrator asked for a tool that is not registered in this host.'')]),
         w))"

definition traceJson :: "ExecutionTrace list \<Rightarrow> 'n json" where
  "traceJson trace = JArr (map (\<lambda>(title, detail). JObj [(''title'', JStr title), (''detail'', JStr detail)]) trace)"

text \<open>\<open>renderToolResult\<close>; \<open>JSON_stringify\<close> is \<open>JSON.stringify(v, null, 2)\<close>.\<close>

definition renderToolResult :: "'n platform \<Rightarrow> 'n ToolRunResponse \<Rightarrow> string" where
  "renderToolResult js result =
     (case result of
        ToolRunSuccess r logs trace \<Rightarrow>
          JSON_stringify js
            (JObj [(''ok'', JBool True), (''result'', r), (''logs'', JArr (map JStr logs)),
                   (''trace'', traceJson trace)])
      | ToolRunError message trace \<Rightarrow>
          JSON_stringify js
            (JObj [(''ok'', JBool False), (''message'', JStr message),
                   (''trace'', traceJson trace)]))"

fun result_ok :: "'n ToolRunResponse \<Rightarrow> bool" where
  "result_ok (ToolRunSuccess r logs trace) = True"
| "result_ok (ToolRunError message trace) = False"

section \<open>The orchestrator loop: \<open>createAgentResponse\<close>\<close>

text \<open>
  The state of one exchange: the conversation, the events handed to \<open>sendEvent\<close> in
  order, the number of UUIDs drawn and the state of the tools.
\<close>

record ('n, 'w) agent_state =
  conversation :: "'n AgentMessage list"
  sent :: "'n AgentStreamEvent list"
  drawn :: nat
  world :: 'w

definition toolMessage :: "'n::zero platform \<Rightarrow> 'n ToolCall \<Rightarrow> 'n ToolRunResponse \<Rightarrow> 'n AgentMessage" where
  "toolMessage js call result =
     \<lparr>role = Tool,
      content = [0 \<mapsto> ToolResultBlock (call_id call) (renderToolResult js result)]\<rparr>"

text \<open>One iteration of \<open>for (const call of toolCalls)\<close>.\<close>

definition toolStep ::
  "'n::zero platform \<Rightarrow> ('n, 'w) host \<Rightarrow> 'n ToolCall \<Rightarrow> ('n, 'w) agent_state \<Rightarrow>
     ('n, 'w) agent_state signal" where
  "toolStep js h call st =
     (let st1 = st\<lparr>sent := sent st @
                   [ToolCallEvent (call_id call) (call_name call) (call_input call)]\<rparr>
      in case runTool h (call_name call) (call_input call) (world st1) of
           (Inl e, w) \<Rightarrow> Raised e (st1\<lparr>world := w\<rparr>)
         | (Inr result, w) \<Rightarrow>
             Next (st1\<lparr>conversation := conversation st1 @ [toolMessage js call result],
                       sent := sent st1 @
                         [ToolResultEvent (call_id call) (result_ok result) result,
                          MessageEvent (toolMessage js call result)],
                       world := w\<rparr>))"

fun toolLoop ::
  "'n::zero platform \<Rightarrow> ('n, 'w) host \<Rightarrow> 'n ToolCall list \<Rightarrow> ('n, 'w) agent_state \<Rightarrow>
     ('n, 'w) agent_state signal" where
  "toolLoop js h [] st = Next st"
| "toolLoop js h (call # calls) st =
     (case toolStep js h call st of
        Next st' \<Rightarrow> toolLoop js h calls st'
      | Finished st' \<Rightarrow> Finished st'
      | Raised e st' \<Rightarrow> Raised e st')"

text \<open>
  The model endpoint and the network are a script: the outcome of the k-th \<open>fetch\<close> of
  the exchange is the k-th entry. The \<open>while (true)\<close> loop has no bound of its own; the
  result is \<open>None\<close> when the loop asks for a turn beyond the end of the script.
\<close>

record ('n, 'b, 'd, 'w) env =
  env_js :: "'n platform"
  env_decoder :: "('b, 'd) TextDecoder"
  env_apiKey :: "string option"
  env_host :: "('n, 'w) host"

fun agentLoop ::
  "('n::zero, 'b, 'd, 'w) env \<Rightarrow> 'b fetched list \<Rightarrow> ('n, 'w) agent_state \<Rightarrow>
     ('n, 'w) agent_state outcome option" where
  "agentLoop env [] st = None"
| "agentLoop env (r # rs) st =
     (case streamClaudeTurn (env_js env) (env_decoder env) (env_apiKey env) r (sent st) (drawn st) of
        Threw e ts \<Rightarrow> Some (Threw e (st\<lparr>sent := emitted ts, drawn := uuids ts\<rparr>))
      | Returned ts \<Rightarrow>
          (let assistantMessage = \<lparr>role = Assistant, content = assistantContent ts\<rparr>;
               st1 = st\<lparr>conversation := conversation st @ [assistantMessage],
                        sent := emitted ts @ [MessageEvent assistantMessage],
                        drawn := uuids ts\<rparr>
           in if toolCalls ts = [] then Some (Returned st1)
              else
                (case toolLoop (env_js env) (env_host env) (toolCalls ts) st1 of
                   Next st2 \<Rightarrow> agentLoop env rs st2
                 | Finished st2 \<Rightarrow> Some (Returned st2)
                 | Raised e st2 \<Rightarrow> Some (Threw e st2))))"

text \<open>The message of the \<open>error\<close> event that the \<open>catch\<close> block sends.\<close>

fun errorMessage :: "thrown \<Rightarrow> string" where
  "errorMessage (Error m) = m"
| "errorMessage NonError = ''Unknown agent error''"

text \<open>
  How the exchange ends: after the loop, the session snapshot and \<open>done\<close>; in the
  \<open>catch\<close> block, the \<open>error\<close> event.
\<close>

fun finishExchange :: "string \<Rightarrow> ('n, 'w) agent_state outcome \<Rightarrow> ('n, 'w) agent_state" where
  "finishExchange sessionId (Returned st) =
     st\<lparr>sent := sent st @
           [SessionEvent \<lparr>session_id = sessionId, messages = conversation st\<rparr>, DoneEvent]\<rparr>"
| "finishExchange sessionId (Threw e st) =
     st\<lparr>sent := sent st @ [ErrorEvent (errorMessage e)]\<rparr>"

text \<open>\<open>createAgentResponse\<close>: the state the exchange ends in, with every event sent.\<close>

definition createAgentResponse ::
  "('n::zero, 'b, 'd, 'w) env \<Rightarrow> 'b fetched list \<Rightarrow> string \<Rightarrow> 'n AgentSession option \<Rightarrow> 'w \<Rightarrow>
     ('n, 'w) agent_state option" where
  "createAgentResponse env script prompt session w =
     (let sessionId = (case session of Some s \<Rightarrow> session_id s | None \<Rightarrow> randomUUID (env_js env) 0);
          userMessage = \<lparr>role = User, content = [0 \<mapsto> TextBlock prompt]\<rparr>;
          st0 = \<lparr>conversation = (case session of Some s \<Rightarrow> messages s | None \<Rightarrow> []) @ [userMessage],
                 sent = [MessageEvent userMessage],
                 drawn = (case session of Some s \<Rightarrow> 0 | None \<Rightarrow> 1),
                 world = w\<rparr>
      in map_option (finishExchange sessionId) (agentLoop env script st0))"

text \<open>The \<open>type\<close> field of an outbound event.\<close>

fun eventType :: "'n AgentStreamEvent \<Rightarrow> string" where
  "eventType (AssistantDelta t) = ''assistant-delta''"
| "eventType (MessageEvent m) = ''message''"
| "eventType (ToolRequest i n) = ''tool-request''"
| "eventType (ToolCallEvent i n v) = ''tool-call''"
| "eventType (ToolResultEvent i b r) = ''tool-result''"
| "eventType (SessionEvent s) = ''session''"
| "eventType (ErrorEvent m) = ''error''"
| "eventType DoneEvent = ''done''"

section \<open>Vocabulary for the properties\<close>

text \<open>The handlers of the \<open>switch\<close> applied to a sequence of decoded wire events, as the
  \<open>while\<close> loop of \<open>processBuffer\<close> applies them.\<close>

fun dispatchAll ::
  "'n::zero platform \<Rightarrow> 'n AnthropicEvent list \<Rightarrow> 'n turn_state \<Rightarrow> 'n turn_state signal" where
  "dispatchAll js [] st = Next st"
| "dispatchAll js (ev # evs) st =
     (case dispatch js ev st of
        Next st' \<Rightarrow> dispatchAll js evs st'
      | Finished st' \<Rightarrow> Finished st'
      | Raised e st' \<Rightarrow> Raised e st')"

text \<open>A \<open>content_block_start\<close> event that opens a text block at position \<open>i\<close>.\<close>

definition text_start_at :: "'n \<Rightarrow> 'n AnthropicEvent \<Rightarrow> bool" where
  "text_start_at i ev \<longleftrightarrow>
     event ev = ''content_block_start'' \<and>
     getProp (data ev) ''index'' = Some (JNum i) \<and>
     getProp (getProp (data ev) ''content_block'') ''type'' = Some (JStr ''text'')"

text \<open>A \<open>content_block_delta\<close> event that carries the \<open>text_delta\<close> \<open>t\<close> for position
  \<open>i\<close>.\<close>

definition text_delta_at :: "'n \<Rightarrow> string \<Rightarrow> 'n AnthropicEvent \<Rightarrow> bool" where
  "text_delta_at i t ev \<longleftrightarrow>
     event ev = ''content_block_delta'' \<and>
     getProp (data ev) ''index'' = Some (JNum i) \<and>
     getProp (getProp (data ev) ''delta'') ''type'' = Some (JStr ''text_delta'') \<and>
     getProp (getProp (data ev) ''delta'') ''text'' = Some (JStr t)"

text \<open>A \<open>content_block_delta\<close> event that carries the \<open>input_json_delta\<close> fragment
  \<open>frag\<close> for position \<open>i\<close>.\<close>

definition input_json_delta_at :: "'n \<Rightarrow> string \<Rightarrow> 'n AnthropicEvent \<Rightarrow> bool" where
  "input_json_delta_at i frag ev \<longleftrightarrow>
     event ev = ''content_block_delta'' \<and>
     getProp (data ev) ''index'' = Some (JNum i) \<and>
     getProp (getProp (data ev) ''delta'') ''type'' = Some (JStr ''input_json_delta'') \<and>
     getProp (getProp (data ev) ''delta'') ''partial_json'' = Some (JStr frag)"

text \<open>A \<open>content_block_start\<close> event that opens a tool-use block at position \<open>i\<close>, with
  the id and the name given as strings.\<close>

definition tool_use_start_at :: "'n \<Rightarrow> string \<Rightarrow> string \<Rightarrow> 'n AnthropicEvent \<Rightarrow> bool" where
  "tool_use_start_at i tid tname ev \<longleftrightarrow>
     event ev = ''content_block_start'' \<and>
     getProp (data ev) ''index'' = Some (JNum i) \<and>
     getProp (getProp (data ev) ''content_block'') ''type'' = Some (JStr ''tool_use'') \<and>
     getProp (getProp (data ev) ''content_block'') ''id'' = Some (JStr tid) \<and>
     getProp (getProp (data ev) ''content_block'') ''name'' = Some (JStr tname)"

text \<open>A \<open>content_block_stop\<close> event for position \<open>i\<close>.\<close>

definition stop_at :: "'n \<Rightarrow> 'n AnthropicEvent \<Rightarrow> bool" where
  "stop_at i ev \<longleftrightarrow>
     event ev = ''content_block_stop'' \<and> getProp (data ev) ''index'' = Some (JNum i)"

text \<open>The \<open>input\<close> of the tool-use block at a position of the assistant message.\<close>

definition toolInputAt :: "'n turn_state \<Rightarrow> 'n \<Rightarrow> 'n json option" where
  "toolInputAt st i =
     (case assistantContent st i of
        Some (ToolUseBlock bid bname input) \<Rightarrow> Some input
      | _ \<Rightarrow> None)"


text \<open>The concatenation of the assistant-text deltas among the events sent.\<close>

fun assistantText :: "'n AgentStreamEvent list \<Rightarrow> string" where
  "assistantText [] = []"
| "assistantText (AssistantDelta t # evs) = t @ assistantText evs"
| "assistantText (ev # evs) = assistantText evs"

text \<open>The outbound event types that end the stream, and the snapshot.\<close>

definition closing :: "string \<Rightarrow> bool" where
  "closing t \<longleftrightarrow> t = ''session'' \<or> t = ''done'' \<or> t = ''error''"

fun outcome_state :: "'a outcome \<Rightarrow> 'a" where
  "outcome_state (Returned s) = s"
| "outcome_state (Threw e s) = s"



fun signal_state :: "'a signal \<Rightarrow> 'a" where
  "signal_state (Next s) = s"
| "signal_state (Finished s) = s"
| "signal_state (Raised e s) = s"

text \<open>A list that only grew, by elements that satisfy \<open>P\<close>.\<close>

definition grows :: "('a \<Rightarrow> bool) \<Rightarrow> 'a list \<Rightarrow> 'a list \<Rightarrow> bool" where
  "grows P xs ys \<longleftrightarrow> (\<exists>new. ys = xs @ new \<and> list_all P new)"

definition not_closing :: "'n AgentStreamEvent \<Rightarrow> bool" where
  "not_closing ev \<longleftrightarrow> \<not> closing (eventType ev)"




text \<open>The session id of an exchange: that of the session supplied, or a fresh UUID.\<close>

definition sessionIdOf :: "('n, 'b, 'd, 'w) env \<Rightarrow> 'n AgentSession option \<Rightarrow> string" where
  "sessionIdOf env session =
     (case session of Some s \<Rightarrow> session_id s | None \<Rightarrow> randomUUID (env_js env) 0)"



section \<open>A concrete platform, host and model endpoint\<close>

text \<open>
  The instances that the closed statements below are evaluated on. Numbers are integers,
  bytes are ASCII characters, which the decoder passes on unchanged. \<open>fixture_parse\<close> is
  \<open>JSON.parse\<close> on the texts it lists, which are the only ones it is applied to; a text it
  does not list counts as a syntax error.
\<close>

definition VT :: char where
  "VT = CHR 0x0B"

definition text_start_json :: string where
  \<open>text_start_json = ''{"index":0,"content_block":{"type":"text","text":""}}''\<close>

definition text_delta_json :: string where
  \<open>text_delta_json = ''{"index":0,"delta":{"type":"text_delta","text":"Hi"}}''\<close>

definition stop0_json :: string where
  \<open>stop0_json = ''{"index":0}''\<close>

definition unknown_start_json :: string where
  \<open>unknown_start_json =
     ''{"index":0,"content_block":{"type":"tool_use","id":"t9","name":"delete_everything"}}''\<close>

definition js_start_json :: string where
  \<open>js_start_json =
     ''{"index":0,"content_block":{"type":"tool_use","id":"t1","name":"run_javascript"}}''\<close>

definition null_delta_json :: string where
  \<open>null_delta_json = ''{"index":0,"delta":{"type":"input_json_delta","partial_json":"null"}}''\<close>

definition message_stop_json :: string where
  \<open>message_stop_json = ''{"type":"message_stop"}''\<close>

definition a1_json :: string where
  \<open>a1_json = ''{"a":1}''\<close>

definition fixture_parse :: "string \<Rightarrow> int json option" where
  "fixture_parse =
     map_of
       [(text_start_json,
           JObj [(''index'', JNum 0),
                 (''content_block'', JObj [(''type'', JStr ''text''), (''text'', JStr [])])]),
        (text_delta_json,
           JObj [(''index'', JNum 0),
                 (''delta'', JObj [(''type'', JStr ''text_delta''), (''text'', JStr ''Hi'')])]),
        (stop0_json, JObj [(''index'', JNum 0)]),
        (unknown_start_json,
           JObj [(''index'', JNum 0),
                 (''content_block'',
                    JObj [(''type'', JStr ''tool_use''), (''id'', JStr ''t9''),
                          (''name'', JStr ''delete_everything'')])]),
        (js_start_json,
           JObj [(''index'', JNum 0),
                 (''content_block'',
                    JObj [(''type'', JStr ''tool_use''), (''id'', JStr ''t1''),
                          (''name'', JStr ''run_javascript'')])]),
        (null_delta_json,
           JObj [(''index'', JNum 0),
                 (''delta'',
                    JObj [(''type'', JStr ''input_json_delta''), (''partial_json'', JStr ''null'')])]),
        (message_stop_json, JObj [(''type'', JStr ''message_stop'')]),
        (''null'', JNull),
        (a1_json, JObj [(''a'', JNum 1)])]"

text \<open>The rendering of \<open>JSON.stringify\<close> is cut down to the \<open>ok\<close> flag of the object.\<close>

definition fixture_stringify :: "int json \<Rightarrow> string" where
  "fixture_stringify v =
     (if getProp (Some v) ''ok'' = Some (JBool True) then ''ok:true'' else ''ok:false'')"

definition fixture_js :: "int platform" where
  "fixture_js =
     \<lparr>JSON_parse = fixture_parse,
      JSON_stringify = fixture_stringify,
      Number_toString = (\<lambda>n. if n < 0 then ''-'' @ decimal (nat (- n)) else decimal (nat n)),
      randomUUID = (\<lambda>k. ''uuid-'' @ decimal k)\<rparr>"

definition ascii_decoder :: "(char, unit) TextDecoder" where
  "ascii_decoder = \<lparr>decodeByte = (\<lambda>d b. ([b], d)), decodeEnd = (\<lambda>d. []), decoderInit = ()\<rparr>"

text \<open>A host whose tools succeed and count their invocations.\<close>

definition fixture_host :: "(int, nat) host" where
  "fixture_host =
     \<lparr>runJavaScript = (\<lambda>code w. (Inr (ToolRunSuccess JNull [] []), Suc w)),
      listCapabilities = ToolRunSuccess (JObj []) [] [],
      explainGuardrails = ToolRunSuccess (JObj []) [] [],
      runKnowledgeBaseLookup = (\<lambda>input w. (Inr (ToolRunSuccess (JArr []) [] []), Suc w)),
      runTodoManager = (\<lambda>input w. (Inr (ToolRunSuccess (JArr []) [] []), Suc w))\<rparr>"

definition fixture_env :: "(int, char, unit, nat) env" where
  "fixture_env =
     \<lparr>env_js = fixture_js, env_decoder = ascii_decoder, env_apiKey = Some ''key'',
      env_host = fixture_host\<rparr>"

text \<open>One SSE frame: the \<open>event:\<close> line, the \<open>data:\<close> line and the blank line.\<close>

definition frame :: "string \<Rightarrow> string \<Rightarrow> string" where
  "frame name payload = ''event: '' @ name @ [LF] @ ''data: '' @ payload @ [LF, LF]"

text \<open>A turn that streams the text \<open>Hi\<close>.\<close>

definition text_transcript :: string where
  "text_transcript =
     frame ''content_block_start'' text_start_json @
     frame ''content_block_delta'' text_delta_json @
     frame ''content_block_stop'' stop0_json @
     frame ''message_stop'' message_stop_json"



text \<open>A turn in which a text delta arrives for a position that was never started.\<close>

definition stray_delta_transcript :: string where
  "stray_delta_transcript =
     frame ''content_block_delta'' text_delta_json @
     frame ''message_stop'' message_stop_json"

text \<open>Decoded wire events, as \<open>parseEvent\<close> returns them.\<close>

definition text_start_event :: "int \<Rightarrow> int AnthropicEvent" where
  "text_start_event i =
     \<lparr>event = ''content_block_start'',
      data = Some (JObj [(''index'', JNum i),
                         (''content_block'', JObj [(''type'', JStr ''text''), (''text'', JStr [])])])\<rparr>"

definition text_delta_event :: "int \<Rightarrow> string \<Rightarrow> int AnthropicEvent" where
  "text_delta_event i t =
     \<lparr>event = ''content_block_delta'',
      data = Some (JObj [(''index'', JNum i),
                         (''delta'', JObj [(''type'', JStr ''text_delta''), (''text'', JStr t)])])\<rparr>"

definition tool_use_start_event :: "int \<Rightarrow> string \<Rightarrow> string \<Rightarrow> int AnthropicEvent" where
  "tool_use_start_event i tid tname =
     \<lparr>event = ''content_block_start'',
      data = Some (JObj [(''index'', JNum i),
                         (''content_block'',
                            JObj [(''type'', JStr ''tool_use''), (''id'', JStr tid),
                                  (''name'', JStr tname)])])\<rparr>"

definition input_json_delta_event :: "int \<Rightarrow> string \<Rightarrow> int AnthropicEvent" where
  "input_json_delta_event i frag =
     \<lparr>event = ''content_block_delta'',
      data = Some (JObj [(''index'', JNum i),
                         (''delta'',
                            JObj [(''type'', JStr ''input_json_delta''),
                                  (''partial_json'', JStr frag)])])\<rparr>"

definition stop_event :: "int \<Rightarrow> int AnthropicEvent" where
  "stop_event i = \<lparr>event = ''content_block_stop'', data = Some (JObj [(''index'', JNum i)])\<rparr>"





definition ok_response :: "string list \<Rightarrow> char Response" where
  "ok_response chunks = \<lparr>ok = True, status = 200, body = Some chunks\<rparr>"




definition empty_turn :: "int turn_state" where
  "empty_turn =
     \<lparr>assistantContent = Map.empty, toolCalls = [], pendingToolInputs = Map.empty,
      emitted = [], uuids = 0, decoded = []\<rparr>"

section \<open>Properties of the frame decoder\<close>

lemma startsWith_data_not_blank:
  "startsWith line ''data:'' \<Longrightarrow> trim line \<noteq> []"
proof -
  assume h: "startsWith line ''data:''"
  then obtain r where l: "line = ''data:'' @ r"
    by (metis append_take_drop_id startsWith_def)
  have "dropWhile isWhiteSpace line = line"
    by (simp add: l isWhiteSpace_def)
  moreover have "dropWhile isWhiteSpace (rev line) \<noteq> []"
  proof
    assume "dropWhile isWhiteSpace (rev line) = []"
    then have "\<forall>c \<in> set (rev line). isWhiteSpace c"
      by (simp add: dropWhile_eq_Nil_conv)
    then have "isWhiteSpace (CHR ''d'')" by (simp add: l)
    then show False by (simp add: isWhiteSpace_def)
  qed
  ultimately show ?thesis by (simp add: trim_def)
qed

lemma startsWith_data_not_event:
  "startsWith line ''data:'' \<Longrightarrow> \<not> startsWith line ''event:''"
  by (cases line) (auto simp: startsWith_def)

lemma scanLines_data:
  "snd (scanLines lines (ev, acc)) =
     acc @ map (\<lambda>line. trim (drop (length ''data:'') line)) (filter (\<lambda>line. startsWith line ''data:'') lines)"
proof (induction lines arbitrary: ev acc)
  case Nil
  show ?case by simp
next
  case (Cons line lines)
  show ?case
  proof (cases "startsWith line ''data:''")
    case True
    with startsWith_data_not_blank [OF True] startsWith_data_not_event [OF True] Cons
    show ?thesis by simp
  next
    case False
    with Cons show ?thesis by simp
  qed
qed

text \<open>
  C6, as the code has it. The payload text of a frame is the concatenation, in line order
  and with no separator, of the frame's \<open>data:\<close> lines, each with the prefix removed and
  then trimmed of white space at both ends.
\<close>

theorem C6_payload_is_concat_of_trimmed_data_lines:
  "dataPayload raw =
     concat (map (\<lambda>line. trim (drop (length ''data:'') line))
                 (filter (\<lambda>line. startsWith line ''data:'') (split_lines raw)))"
  by (simp add: dataPayload_def dataLines_def scanLines_data)

text \<open>
  C6, as the claim words it (the rest of each line kept unchanged), fails on the frame
  \<open>data: x\<close>: the payload is \<open>x\<close>, without the space that follows the prefix.
\<close>

theorem C6_rest_of_line_not_kept_counterexample:
  "dataPayload ''data: x'' \<noteq>
     concat (map (\<lambda>line. drop (length ''data:'') line)
                 (filter (\<lambda>line. startsWith line ''data:'') (split_lines ''data: x'')))"
  by (simp add: dataPayload_def dataLines_def LF_def startsWith_def trim_def isWhiteSpace_def)

section \<open>Fragmentation of the response body\<close>

lemma startsWith_append:
  "startsWith s p \<Longrightarrow> startsWith (s @ x) p"
  unfolding startsWith_def
  by (metis append_eq_conv_conj append_assoc append_take_drop_id)

lemma not_startsWith_append:
  "\<not> startsWith s p \<Longrightarrow> length p \<le> length s \<Longrightarrow> \<not> startsWith (s @ x) p"
  unfolding startsWith_def by simp

lemma indexOf_append:
  "indexOf s p = Some i \<Longrightarrow> indexOf (s @ x) p = Some i"
proof (induction s arbitrary: i)
  case Nil
  then show ?case by (cases x) (auto simp: startsWith_def split: if_splits)
next
  case (Cons c cs)
  show ?case
  proof (cases "startsWith (c # cs) p")
    case True
    with Cons.prems startsWith_append [OF True, of x] show ?thesis by simp
  next
    case False
    with Cons.prems obtain j where j: "indexOf cs p = Some j" "i = Suc j" by auto
    from indexOf_bound [OF j(1)] have "length p \<le> length (c # cs)" by simp
    with False have "\<not> startsWith ((c # cs) @ x) p" by (rule not_startsWith_append)
    with j Cons.IH [OF j(1)] show ?thesis by simp
  qed
qed

lemma processBuffer_append:
  "processBuffer js (b @ x) st =
     (case processBuffer js b st of
        Next (b', st') \<Rightarrow> processBuffer js (b' @ x) st'
      | Finished (b', st') \<Rightarrow> Finished (b' @ x, st')
      | Raised e (b', st') \<Rightarrow> Raised e (b' @ x, st'))"
proof (induction js b st rule: processBuffer.induct)
  case (1 js buffer st)
  show ?case
  proof (cases "indexOf buffer [LF, LF]")
    case None
    then show ?thesis by (simp add: processBuffer.simps [of js buffer])
  next
    case (Some i)
    from indexOf_bound [OF Some] have len: "i + 2 \<le> length buffer" by simp
    have idx: "indexOf (buffer @ x) [LF, LF] = Some i" using Some by (rule indexOf_append)
    have tk: "take i (buffer @ x) = take i buffer" using len by simp
    have dr: "drop (Suc (Suc i)) (buffer @ x) = drop (Suc (Suc i)) buffer @ x" using len by simp
    note unf = processBuffer.simps [of js buffer] processBuffer.simps [of js "buffer @ x"]
    show ?thesis
    proof (cases "parseEvent (JSON_parse js) (take i buffer)")
      case None
      from "1.IH"(1) [OF Some None] show ?thesis
        by (simp add: unf Some idx tk dr None del: take_append drop_append)
    next
      case (Some parsed)
      note P = this
      note I = \<open>indexOf buffer [LF, LF] = Some i\<close>
      show ?thesis
      proof (cases "data parsed = Some (JStr ''[DONE]'')")
        case True
        then show ?thesis
          by (simp add: unf I idx tk dr P del: take_append drop_append)
      next
        case False
        show ?thesis
        proof (cases "dispatch js parsed (st\<lparr>decoded := decoded st @ [parsed]\<rparr>)")
          case (Next st')
          from "1.IH"(2) [OF I P False Next] show ?thesis
            by (simp add: unf I idx tk dr P False Next del: take_append drop_append)
        next
          case (Finished st')
          then show ?thesis
            by (simp add: unf I idx tk dr P False del: take_append drop_append)
        next
          case (Raised e st')
          then show ?thesis
            by (simp add: unf I idx tk dr P False del: take_append drop_append)
        qed
      qed
    qed
  qed
qed

lemma decode_append:
  "decode dec d (a @ b) =
     (case decode dec d a of (s, d') \<Rightarrow> (case decode dec d' b of (r, d'') \<Rightarrow> (s @ r, d'')))"
  by (induction a arbitrary: d) (auto split: prod.splits)

lemma readLoop_merge:
  "readLoop js dec (c1 # c2 # rest) d buffer st = readLoop js dec ((c1 @ c2) # rest) d buffer st"
proof -
  obtain t1 d1 where a: "decode dec d c1 = (t1, d1)" by (cases "decode dec d c1")
  obtain t2 d2 where b: "decode dec d1 c2 = (t2, d2)" by (cases "decode dec d1 c2")
  have ab: "decode dec d (c1 @ c2) = (t1 @ t2, d2)" by (simp add: decode_append a b)
  have pb: "processBuffer js (buffer @ t1 @ t2) st =
     (case processBuffer js (buffer @ t1) st of
        Next (b', st') \<Rightarrow> processBuffer js (b' @ t2) st'
      | Finished (b', st') \<Rightarrow> Finished (b' @ t2, st')
      | Raised e (b', st') \<Rightarrow> Raised e (b' @ t2, st'))"
    using processBuffer_append [of js "buffer @ t1" t2 st] by simp
  show ?thesis
    by (simp add: a b ab pb split: signal.splits prod.splits)
qed

lemma readLoop_nil:
  "readLoop js dec [] d buffer st = readLoop js dec [[]] d buffer st"
  by (simp add: processBuffer_append [of js buffer "decodeEnd dec d" st] split: signal.splits prod.splits)

lemma readLoop_concat:
  "readLoop js dec chunks d buffer st = readLoop js dec [concat chunks] d buffer st"
proof (induction chunks arbitrary: d buffer st)
  case Nil
  show ?case using readLoop_nil [of js dec d buffer st] by simp
next
  case (Cons c cs)
  have "readLoop js dec (c # cs) d buffer st = readLoop js dec (c # [concat cs]) d buffer st"
    by (simp add: Cons.IH split: signal.splits prod.splits)
  also have "\<dots> = readLoop js dec [c @ concat cs] d buffer st"
    by (rule readLoop_merge)
  finally show ?case by simp
qed


lemma streamClaudeTurn_concat:
  "streamClaudeTurn js dec key (Resolved (response\<lparr>body := Some chunks\<rparr>)) out n =
   streamClaudeTurn js dec key (Resolved (response\<lparr>body := Some [concat chunks]\<rparr>)) out n"
proof -
  have rl: "\<And>d b s. readLoop js dec chunks d b s = readLoop js dec [concat chunks] d b s"
    by (rule readLoop_concat)
  have rt: "responseText dec [concat chunks] = responseText dec chunks"
    by (simp add: responseText_def)
  show ?thesis
    unfolding streamClaudeTurn_def Let_def
    by (simp add: rl rt del: readLoop.simps)
qed

lemma processBuffer_partial:
  "indexOf buffer [LF, LF] = None \<Longrightarrow> processBuffer js buffer st = Next (buffer, st)"
  by (simp add: processBuffer.simps [of js buffer])

text \<open>
  C1. However the bytes of a transcript are split into chunks, the turn ends as it does
  when the whole transcript arrives in one read: the same decoded wire events, the same
  assistant message and tool calls, the same events sent, the same error if any. A buffer
  that holds no blank line is left as it is, and nothing is decoded from it.
\<close>

theorem C1_fragmentation_invariant:
  "(concat chunks = transcript \<longrightarrow>
      streamClaudeTurn js dec key (Resolved (response\<lparr>body := Some chunks\<rparr>)) out n =
      streamClaudeTurn js dec key (Resolved (response\<lparr>body := Some [transcript]\<rparr>)) out n) \<and>
   (indexOf buffer [LF, LF] = None \<longrightarrow> processBuffer js buffer st = Next (buffer, st))"
proof (intro conjI impI)
  assume "concat chunks = transcript"
  then show "streamClaudeTurn js dec key (Resolved (response\<lparr>body := Some chunks\<rparr>)) out n =
      streamClaudeTurn js dec key (Resolved (response\<lparr>body := Some [transcript]\<rparr>)) out n"
    using streamClaudeTurn_concat [where chunks = chunks] by blast
next
  assume "indexOf buffer [LF, LF] = None"
  then show "processBuffer js buffer st = Next (buffer, st)"
    by (rule processBuffer_partial)
qed

theorem C1_fragmentation_witness:
  "concat [take 37 text_transcript, take 50 (drop 37 text_transcript), [],
           drop 87 text_transcript] = text_transcript \<and>
   streamClaudeTurn fixture_js ascii_decoder (Some ''key'')
     (Resolved (ok_response [take 37 text_transcript, take 50 (drop 37 text_transcript), [],
                             drop 87 text_transcript])) [] 0 =
   streamClaudeTurn fixture_js ascii_decoder (Some ''key'')
     (Resolved (ok_response [text_transcript])) [] 0 \<and>
   map event (decoded (outcome_state
     (streamClaudeTurn fixture_js ascii_decoder (Some ''key'')
        (Resolved (ok_response [text_transcript])) [] 0))) =
     [''content_block_start'', ''content_block_delta'', ''content_block_stop'',
      ''message_stop''] \<and>
   indexOf (''data: '' @ text_delta_json) [LF, LF] = None \<and>
   processBuffer fixture_js (''data: '' @ text_delta_json) empty_turn =
     Next (''data: '' @ text_delta_json, empty_turn)"
proof -
  let ?chunks = "[take 37 text_transcript, take 50 (drop 37 text_transcript), [],
                  drop 87 text_transcript]"
  have split: "concat ?chunks = text_transcript"
    by code_simp
  have partial: "indexOf (''data: '' @ text_delta_json) [LF, LF] = None"
    by code_simp
  have events: "map event (decoded (outcome_state
     (streamClaudeTurn fixture_js ascii_decoder (Some ''key'')
        (Resolved (ok_response [text_transcript])) [] 0))) =
     [''content_block_start'', ''content_block_delta'', ''content_block_stop'',
      ''message_stop'']"
    by code_simp
  have upd: "\<And>cs. (ok_response [])\<lparr>body := Some cs\<rparr> = ok_response cs"
    by (simp add: ok_response_def)
  from C1_fragmentation_invariant
    [where chunks = ?chunks and transcript = text_transcript and js = fixture_js
       and dec = ascii_decoder and key = "Some ''key''" and response = "ok_response []"
       and out = "[]" and n = 0 and buffer = "''data: '' @ text_delta_json"
       and st = empty_turn]
  have "streamClaudeTurn fixture_js ascii_decoder (Some ''key'')
          (Resolved (ok_response ?chunks)) [] 0 =
        streamClaudeTurn fixture_js ascii_decoder (Some ''key'')
          (Resolved (ok_response [text_transcript])) [] 0"
    and "processBuffer fixture_js (''data: '' @ text_delta_json) empty_turn =
           Next (''data: '' @ text_delta_json, empty_turn)"
    using split partial unfolding upd by blast+
  with split partial events show ?thesis by blast
qed

section \<open>Properties of the content assembler\<close>

lemma getProp_Some_truthy: "getProp v k = Some x \<Longrightarrow> truthy v"
  by (cases "(v, k)" rule: getProp.cases) auto

lemma dispatch_text_delta:
  assumes "text_delta_at i t ev"
  shows "dispatch js ev st =
     Next ((case assistantContent st i of
              Some (TextBlock t0) \<Rightarrow>
                st\<lparr>assistantContent := (assistantContent st)(i \<mapsto> TextBlock (t0 @ t))\<rparr>
            | _ \<Rightarrow> st)
           \<lparr>emitted := (if t \<noteq> [] then emitted st @ [AssistantDelta t] else emitted st)\<rparr>)"
proof -
  from assms have tr: "truthy (getProp (data ev) ''delta'')"
    unfolding text_delta_at_def by (metis getProp_Some_truthy)
  from assms tr show ?thesis
    unfolding text_delta_at_def dispatch_def on_content_block_delta_def
    by (auto simp: emitText_def Let_def split: option.splits MessageContent.splits)
qed

lemma dispatch_text_start:
  assumes "text_start_at i ev"
  shows "dispatch js ev st = Next (st\<lparr>assistantContent := (assistantContent st)(i \<mapsto> TextBlock [])\<rparr>)"
proof -
  from assms have tr: "truthy (getProp (data ev) ''content_block'')"
    unfolding text_start_at_def by (metis getProp_Some_truthy)
  from assms tr show ?thesis
    unfolding text_start_at_def dispatch_def on_content_block_start_def
    by (simp add: Let_def)
qed

lemma text_deltas_accumulate:
  assumes "list_all2 (text_delta_at i) ts evs"
    and "assistantContent st i = Some (TextBlock t0)"
  shows "\<exists>st'. dispatchAll js evs st = Next st' \<and>
               assistantContent st' i = Some (TextBlock (t0 @ concat ts))"
  using assms
proof (induction ts evs arbitrary: st t0 rule: list_all2_induct)
  case Nil
  then show ?case by simp
next
  case (Cons t ts ev evs)
  let ?st1 = "(st\<lparr>assistantContent := (assistantContent st)(i \<mapsto> TextBlock (t0 @ t))\<rparr>)
                \<lparr>emitted := (if t \<noteq> [] then emitted st @ [AssistantDelta t] else emitted st)\<rparr>"
  have step: "dispatch js ev st = Next ?st1"
    using dispatch_text_delta [OF Cons.hyps(1), of js st] Cons.prems by simp
  have "assistantContent ?st1 i = Some (TextBlock (t0 @ t))" by simp
  from Cons.IH [OF this] obtain st' where
    "dispatchAll js evs ?st1 = Next st'" "assistantContent st' i = Some (TextBlock ((t0 @ t) @ concat ts))"
    by blast
  with step show ?case by simp
qed

text \<open>
  C7. After the event that starts a text block at a position, any sequence of
  \<open>content_block_delta\<close> events carrying text deltas for that position is processed
  without a stop or an error, and leaves at that position the text block whose text is the
  concatenation of the delta texts in arrival order.
\<close>

theorem C7_text_deltas_concatenate:
  assumes "text_start_at i ev0" and "list_all2 (text_delta_at i) ts evs"
  shows "\<exists>st'. dispatchAll js (ev0 # evs) st = Next st' \<and>
               assistantContent st' i = Some (TextBlock (concat ts))"
proof -
  let ?st0 = "st\<lparr>assistantContent := (assistantContent st)(i \<mapsto> TextBlock [])\<rparr>"
  have "assistantContent ?st0 i = Some (TextBlock [])" by simp
  from text_deltas_accumulate [OF assms(2) this, of js]
  show ?thesis by (simp add: dispatch_text_start [OF assms(1)])
qed


text \<open>C7 on the deltas \<open>Hel\<close> and \<open>lo\<close> at position 0 of an empty message.\<close>

theorem C7_witness:
  "text_start_at 0 (text_start_event 0) \<and>
   list_all2 (text_delta_at 0) [''Hel'', ''lo''] [text_delta_event 0 ''Hel'', text_delta_event 0 ''lo''] \<and>
   (\<exists>st'. dispatchAll fixture_js
            [text_start_event 0, text_delta_event 0 ''Hel'', text_delta_event 0 ''lo''] empty_turn = Next st' \<and>
          assistantContent st' 0 = Some (TextBlock ''Hello''))"
proof -
  have a: "text_start_at 0 (text_start_event 0)"
    by (simp add: text_start_at_def text_start_event_def)
  have b: "list_all2 (text_delta_at 0) [''Hel'', ''lo''] [text_delta_event 0 ''Hel'', text_delta_event 0 ''lo'']"
    by (simp add: text_delta_at_def text_delta_event_def)
  from C7_text_deltas_concatenate [OF a b, of fixture_js empty_turn] a b
  show ?thesis by simp
qed

lemma dispatch_tool_use_start:
  assumes "tool_use_start_at i tid tname ev"
  shows "dispatch js ev st =
     Next (st\<lparr>assistantContent := (assistantContent st)(i \<mapsto> ToolUseBlock tid tname (JObj [])),
              pendingToolInputs := (pendingToolInputs st)(i \<mapsto>
                 \<lparr>pending_id = tid, pending_name = tname, pending_buffer = []\<rparr>),
              emitted := emitted st @ [ToolRequest tid tname],
              uuids := uuids st\<rparr>)"
proof -
  from assms have tr: "truthy (getProp (data ev) ''content_block'')"
    unfolding tool_use_start_at_def by (metis getProp_Some_truthy)
  from assms tr show ?thesis
    unfolding tool_use_start_at_def dispatch_def on_content_block_start_def
    by (simp add: Let_def emitEvent_def)
qed

lemma dispatch_input_json_delta:
  assumes "input_json_delta_at i frag ev"
  shows "dispatch js ev st =
     Next (case pendingToolInputs st i of
             Some pending \<Rightarrow>
               st\<lparr>pendingToolInputs := (pendingToolInputs st)(i \<mapsto>
                     pending\<lparr>pending_buffer := pending_buffer pending @ frag\<rparr>)\<rparr>
           | None \<Rightarrow> st)"
proof -
  from assms have tr: "truthy (getProp (data ev) ''delta'')"
    unfolding input_json_delta_at_def by (metis getProp_Some_truthy)
  from assms tr show ?thesis
    unfolding input_json_delta_at_def dispatch_def on_content_block_delta_def
    by (auto simp: Let_def split: option.splits)
qed

lemma input_json_deltas_accumulate:
  assumes "list_all2 (input_json_delta_at i) frags evs"
    and "pendingToolInputs st i = Some p"
  shows "\<exists>st'. dispatchAll js evs st = Next st' \<and>
               pendingToolInputs st' i = Some (p\<lparr>pending_buffer := pending_buffer p @ concat frags\<rparr>) \<and>
               assistantContent st' = assistantContent st \<and> toolCalls st' = toolCalls st"
  using assms
proof (induction frags evs arbitrary: st p rule: list_all2_induct)
  case Nil
  then show ?case by simp
next
  case (Cons frag frags ev evs)
  let ?p1 = "p\<lparr>pending_buffer := pending_buffer p @ frag\<rparr>"
  let ?st1 = "st\<lparr>pendingToolInputs := (pendingToolInputs st)(i \<mapsto> ?p1)\<rparr>"
  have step: "dispatch js ev st = Next ?st1"
    using dispatch_input_json_delta [OF Cons.hyps(1), of js st] Cons.prems by simp
  have "pendingToolInputs ?st1 i = Some ?p1" by simp
  from Cons.IH [OF this] obtain st' where
    "dispatchAll js evs ?st1 = Next st'"
    "pendingToolInputs st' i = Some (?p1\<lparr>pending_buffer := pending_buffer ?p1 @ concat frags\<rparr>)"
    "assistantContent st' = assistantContent ?st1" "toolCalls st' = toolCalls ?st1"
    by blast
  with step show ?case by simp
qed

lemma dispatchAll_append:
  "dispatchAll js evs st = Next st' \<Longrightarrow> dispatchAll js (evs @ evs') st = dispatchAll js evs' st'"
  by (induction evs arbitrary: st) (auto split: signal.splits)

lemma dispatch_stop:
  assumes "stop_at i ev"
  shows "dispatch js ev st = on_content_block_stop js (data ev) st"
  using assms unfolding stop_at_def dispatch_def by simp

lemma on_content_block_stop_no_throw:
  "\<exists>s'. on_content_block_stop js payload s = Next s'"
  unfolding on_content_block_stop_def
  by (auto simp: Let_def split: option.splits json.splits MessageContent.splits)

lemma parseToolInput_cases:
  "(trim s \<noteq> [] \<and> JSON_parse js (trim s) = Some v \<longrightarrow> parseToolInput js s = v) \<and>
   (trim s = [] \<or> JSON_parse js (trim s) = None \<longrightarrow> parseToolInput js s = JObj [])"
  unfolding parseToolInput_def by (auto simp: Let_def)

text \<open>
  C2, as the code has it. After the event that starts a tool-use block at a position, the
  \<open>input_json_delta\<close> fragments for the position and the stop event are processed without
  an error; the block and the tool call finalized at the stop carry
  \<open>parseToolInput\<close> of the concatenated fragments: the parse of the concatenation trimmed
  of white space when that is not empty and parses, and the empty object when the trimmed
  concatenation is empty or does not parse. The handler of \<open>content_block_stop\<close> never
  throws, whatever the payload and the state.
\<close>

theorem C2_tool_input_is_parse_of_trimmed_buffer:
  assumes "tool_use_start_at i tid tname ev0"
    and "list_all2 (input_json_delta_at i) frags evs"
    and "stop_at i ev"
  shows "(\<exists>st'. dispatchAll js (ev0 # evs @ [ev]) st = Next st' \<and>
            toolInputAt st' i = Some (parseToolInput js (concat frags)) \<and>
            toolCalls st' = toolCalls st @
              [\<lparr>call_id = tid, call_name = tname,
                call_input = parseToolInput js (concat frags), call_index = i\<rparr>] \<and>
            pendingToolInputs st' i = None) \<and>
         (trim (concat frags) \<noteq> [] \<and> JSON_parse js (trim (concat frags)) = Some v \<longrightarrow>
            parseToolInput js (concat frags) = v) \<and>
         (trim (concat frags) = [] \<or> JSON_parse js (trim (concat frags)) = None \<longrightarrow>
            parseToolInput js (concat frags) = JObj []) \<and>
         (\<forall>payload s. \<exists>s'. on_content_block_stop js payload s = Next s')"
proof -
  let ?p0 = "\<lparr>pending_id = tid, pending_name = tname, pending_buffer = []\<rparr>"
  let ?st0 = "st\<lparr>assistantContent := (assistantContent st)(i \<mapsto> ToolUseBlock tid tname (JObj [])),
              pendingToolInputs := (pendingToolInputs st)(i \<mapsto> ?p0),
              emitted := emitted st @ [ToolRequest tid tname],
              uuids := uuids st\<rparr>"
  have s0: "dispatch js ev0 st = Next ?st0"
    by (rule dispatch_tool_use_start [OF assms(1)])
  have "pendingToolInputs ?st0 i = Some ?p0" by simp
  from input_json_deltas_accumulate [OF assms(2) this, of js] obtain st1 where
    s1: "dispatchAll js evs ?st0 = Next st1"
    and p1: "pendingToolInputs st1 i = Some (?p0\<lparr>pending_buffer := pending_buffer ?p0 @ concat frags\<rparr>)"
    and c1: "assistantContent st1 = assistantContent ?st0"
    and t1: "toolCalls st1 = toolCalls ?st0"
    by blast
  have idx: "getProp (data ev) ''index'' = Some (JNum i)"
    using assms(3) by (simp add: stop_at_def)
  let ?input = "parseToolInput js (concat frags)"
  let ?st2 = "st1\<lparr>pendingToolInputs := (pendingToolInputs st1)(i := None),
                 assistantContent := (assistantContent st1)(i \<mapsto> ToolUseBlock tid tname ?input),
                 toolCalls := toolCalls st1 @
                   [\<lparr>call_id = tid, call_name = tname, call_input = ?input, call_index = i\<rparr>]\<rparr>"
  have s2: "dispatch js ev st1 = Next ?st2"
    using p1 c1 by (simp add: dispatch_stop [OF assms(3)] on_content_block_stop_def idx Let_def)
  have run: "dispatchAll js (ev0 # evs @ [ev]) st = Next ?st2"
    using s0 dispatchAll_append [OF s1, of "[ev]"] s2 by simp
  have "toolInputAt ?st2 i = Some ?input" by (simp add: toolInputAt_def)
  moreover have "toolCalls ?st2 = toolCalls st @
      [\<lparr>call_id = tid, call_name = tname, call_input = ?input, call_index = i\<rparr>]"
    using t1 by simp
  moreover have "pendingToolInputs ?st2 i = None" by simp
  ultimately have first: "\<exists>st'. dispatchAll js (ev0 # evs @ [ev]) st = Next st' \<and>
            toolInputAt st' i = Some ?input \<and>
            toolCalls st' = toolCalls st @
              [\<lparr>call_id = tid, call_name = tname, call_input = ?input, call_index = i\<rparr>] \<and>
            pendingToolInputs st' i = None"
    using run by blast
  from first parseToolInput_cases [of "concat frags" js v] on_content_block_stop_no_throw [of js]
  show ?thesis by blast
qed


text \<open>C2 on the fragments \<open>{"a"\<close> and \<open>:1}\<close> followed by a space, which parse after
  trimming, and on the single fragment \<open>{"a"\<close>, which does not parse.\<close>

theorem C2_witness:
  "tool_use_start_at 0 ''t1'' ''run_javascript'' (tool_use_start_event 0 ''t1'' ''run_javascript'') \<and>
   list_all2 (input_json_delta_at 0) [take 4 a1_json, drop 4 a1_json @ '' '']
     [input_json_delta_event 0 (take 4 a1_json), input_json_delta_event 0 (drop 4 a1_json @ '' '')] \<and>
   stop_at 0 (stop_event 0) \<and>
   trim (concat [take 4 a1_json, drop 4 a1_json @ '' '']) \<noteq> [] \<and>
   JSON_parse fixture_js (trim (concat [take 4 a1_json, drop 4 a1_json @ '' ''])) =
     Some (JObj [(''a'', JNum 1)]) \<and>
   (\<exists>st'. dispatchAll fixture_js
            (tool_use_start_event 0 ''t1'' ''run_javascript'' #
             [input_json_delta_event 0 (take 4 a1_json),
              input_json_delta_event 0 (drop 4 a1_json @ '' '')] @ [stop_event 0]) empty_turn = Next st' \<and>
          toolInputAt st' 0 = Some (JObj [(''a'', JNum 1)])) \<and>
   list_all2 (input_json_delta_at 0) [take 4 a1_json] [input_json_delta_event 0 (take 4 a1_json)] \<and>
   JSON_parse fixture_js (trim (concat [take 4 a1_json])) = None \<and>
   (\<exists>st'. dispatchAll fixture_js
            (tool_use_start_event 0 ''t1'' ''run_javascript'' #
             [input_json_delta_event 0 (take 4 a1_json)] @ [stop_event 0]) empty_turn = Next st' \<and>
          toolInputAt st' 0 = Some (JObj []))"
proof -
  let ?f1 = "[take 4 a1_json, drop 4 a1_json @ '' '']"
  let ?f2 = "[take 4 a1_json]"
  have a: "tool_use_start_at 0 ''t1'' ''run_javascript'' (tool_use_start_event 0 ''t1'' ''run_javascript'')"
    by (simp add: tool_use_start_at_def tool_use_start_event_def)
  have b1: "list_all2 (input_json_delta_at 0) ?f1
     [input_json_delta_event 0 (take 4 a1_json), input_json_delta_event 0 (drop 4 a1_json @ '' '')]"
    by (simp add: input_json_delta_at_def input_json_delta_event_def)
  have b2: "list_all2 (input_json_delta_at 0) ?f2 [input_json_delta_event 0 (take 4 a1_json)]"
    by (simp add: input_json_delta_at_def input_json_delta_event_def)
  have c: "stop_at 0 (stop_event 0)"
    by (simp add: stop_at_def stop_event_def)
  have t1: "trim (concat ?f1) \<noteq> []" by code_simp
  have p1: "JSON_parse fixture_js (trim (concat ?f1)) = Some (JObj [(''a'', JNum 1)])" by code_simp
  have p2: "JSON_parse fixture_js (trim (concat ?f2)) = None" by code_simp
  note th1 = C2_tool_input_is_parse_of_trimmed_buffer
    [OF a b1 c, where js = fixture_js and st = empty_turn and v = "JObj [(''a'', JNum 1)]"]
  note th2 = C2_tool_input_is_parse_of_trimmed_buffer
    [OF a b2 c, where js = fixture_js and st = empty_turn and v = "JObj []"]
  from th1 t1 p1 have i1: "parseToolInput fixture_js (concat ?f1) = JObj [(''a'', JNum 1)]"
    by blast
  from th2 p2 have i2: "parseToolInput fixture_js (concat ?f2) = JObj []"
    by blast
  from th1 i1 have r1: "\<exists>st'. dispatchAll fixture_js
            (tool_use_start_event 0 ''t1'' ''run_javascript'' #
             [input_json_delta_event 0 (take 4 a1_json),
              input_json_delta_event 0 (drop 4 a1_json @ '' '')] @ [stop_event 0]) empty_turn = Next st' \<and>
          toolInputAt st' 0 = Some (JObj [(''a'', JNum 1)])"
    by auto
  from th2 i2 have r2: "\<exists>st'. dispatchAll fixture_js
            (tool_use_start_event 0 ''t1'' ''run_javascript'' #
             [input_json_delta_event 0 (take 4 a1_json)] @ [stop_event 0]) empty_turn = Next st' \<and>
          toolInputAt st' 0 = Some (JObj [])"
    by auto
  from a b1 c t1 p1 r1 b2 p2 r2 show ?thesis by blast
qed

text \<open>
  C2, as the claim words it, fails on the fragments VT and \<open>{"a":1}\<close>: their
  concatenation is not valid JSON (a vertical tab is not JSON white space), yet
  \<open>trim()\<close> removes the tab and the finalized input is the parsed object, not the empty one.
\<close>

theorem C2_untrimmed_invalid_counterexample:
  "JSON_parse fixture_js (concat [[VT], a1_json]) = None \<and>
   (case dispatchAll fixture_js
           [tool_use_start_event 0 ''t1'' ''run_javascript'',
            input_json_delta_event 0 [VT], input_json_delta_event 0 a1_json,
            stop_event 0] empty_turn of
      Next st' \<Rightarrow> toolInputAt st' 0
    | Finished st' \<Rightarrow> None
    | Raised e st' \<Rightarrow> None) = Some (JObj [(''a'', JNum 1)]) \<and>
   JObj [(''a'', JNum 1)] \<noteq> (JObj [] :: int json)"
  by code_simp




text \<open>
  C10. A text delta with non-empty text for a position that holds no text block is sent
  on as an assistant-text delta, and nothing else of the turn state changes: the
  assistant message does not receive the text.
\<close>

theorem C10_stray_text_delta_is_forwarded:
  assumes "text_delta_at i t ev" and "t \<noteq> []"
    and "\<forall>t0. assistantContent st i \<noteq> Some (TextBlock t0)"
  shows "dispatch js ev st = Next (st\<lparr>emitted := emitted st @ [AssistantDelta t]\<rparr>)"
  using assms(2,3) dispatch_text_delta [OF assms(1), of js st]
  by (auto split: option.splits MessageContent.splits)

text \<open>C10 on the text delta \<open>Hi\<close> for position 0 of an empty turn; and a whole turn
  whose only delta is that one sends the text \<open>Hi\<close> and returns a message with no block
  at position 0.\<close>

theorem C10_witness:
  "text_delta_at 0 ''Hi'' (text_delta_event 0 ''Hi'') \<and> ''Hi'' \<noteq> [] \<and>
   (\<forall>t0. assistantContent empty_turn 0 \<noteq> Some (TextBlock t0)) \<and>
   dispatch fixture_js (text_delta_event 0 ''Hi'') empty_turn =
     Next (empty_turn\<lparr>emitted := emitted empty_turn @ [AssistantDelta ''Hi'']\<rparr>) \<and>
   assistantText (emitted (outcome_state (streamClaudeTurn fixture_js ascii_decoder (Some ''key'')
      (Resolved (ok_response [stray_delta_transcript])) [] 0))) = ''Hi'' \<and>
   assistantContent (outcome_state (streamClaudeTurn fixture_js ascii_decoder (Some ''key'')
      (Resolved (ok_response [stray_delta_transcript])) [] 0)) 0 = None"
proof -
  have a: "text_delta_at 0 ''Hi'' (text_delta_event 0 ''Hi'')"
    by (simp add: text_delta_at_def text_delta_event_def)
  have b: "''Hi'' \<noteq> []" by simp
  have c: "\<forall>t0. assistantContent empty_turn 0 \<noteq> Some (TextBlock t0)"
    by (simp add: empty_turn_def)
  have d: "assistantText (emitted (outcome_state (streamClaudeTurn fixture_js ascii_decoder (Some ''key'')
      (Resolved (ok_response [stray_delta_transcript])) [] 0))) = ''Hi''"
    by code_simp
  have e: "assistantContent (outcome_state (streamClaudeTurn fixture_js ascii_decoder (Some ''key'')
      (Resolved (ok_response [stray_delta_transcript])) [] 0)) 0 = None"
    by code_simp
  from C10_stray_text_delta_is_forwarded [OF a b c, of fixture_js] a b c d e
  show ?thesis by blast
qed


section \<open>Properties of the orchestrator loop\<close>

lemma grows_refl: "grows P xs xs"
  by (simp add: grows_def)

lemma grows_trans: "grows P xs ys \<Longrightarrow> grows P ys zs \<Longrightarrow> grows P xs zs"
  unfolding grows_def by (metis append_assoc list_all_append)

lemma grows_snoc: "P x \<Longrightarrow> grows P xs (xs @ [x])"
  by (simp add: grows_def)

lemma grows_append: "list_all P new \<Longrightarrow> grows P xs (xs @ new)"
  by (simp add: grows_def)

lemma on_content_block_start_grows:
  "grows not_closing (emitted st) (emitted (signal_state (on_content_block_start js payload st)))"
  unfolding on_content_block_start_def
  by (auto simp: Let_def emitEvent_def not_closing_def closing_def grows_refl grows_snoc
           split: option.splits json.splits prod.splits)

lemma on_content_block_delta_grows:
  "grows not_closing (emitted st) (emitted (signal_state (on_content_block_delta js payload st)))"
  unfolding on_content_block_delta_def
  by (auto simp: Let_def emitText_def not_closing_def closing_def grows_refl grows_snoc
           split: option.splits json.splits MessageContent.splits)

lemma on_content_block_stop_grows:
  "grows not_closing (emitted st) (emitted (signal_state (on_content_block_stop js payload st)))"
  unfolding on_content_block_stop_def
  by (auto simp: Let_def grows_refl split: option.splits json.splits MessageContent.splits)

lemma dispatch_grows:
  "grows not_closing (emitted st) (emitted (signal_state (dispatch js ev st)))"
  unfolding dispatch_def
  by (simp add: on_content_block_start_grows on_content_block_delta_grows
        on_content_block_stop_grows grows_refl)

lemma processBuffer_grows:
  "grows not_closing (emitted st) (emitted (snd (signal_state (processBuffer js b st))))"
proof (induction js b st rule: processBuffer.induct)
  case (1 js buffer st)
  show ?case
  proof (cases "indexOf buffer [LF, LF]")
    case None
    then show ?thesis by (simp add: processBuffer.simps [of js buffer] grows_refl)
  next
    case (Some i)
    note I = this
    show ?thesis
    proof (cases "parseEvent (JSON_parse js) (take i buffer)")
      case None
      with I "1.IH"(1) [OF I None] show ?thesis
        by (simp add: processBuffer.simps [of js buffer])
    next
      case (Some parsed)
      note P = this
      let ?st = "st\<lparr>decoded := decoded st @ [parsed]\<rparr>"
      show ?thesis
      proof (cases "data parsed = Some (JStr ''[DONE]'')")
        case True
        with I P show ?thesis by (simp add: processBuffer.simps [of js buffer] grows_refl)
      next
        case False
        have d: "grows not_closing (emitted st) (emitted (signal_state (dispatch js parsed ?st)))"
          using dispatch_grows [of ?st js parsed] by simp
        show ?thesis
        proof (cases "dispatch js parsed ?st")
          case (Next st')
          from "1.IH"(2) [OF I P False Next] d Next
          have "grows not_closing (emitted st)
                  (emitted (snd (signal_state (processBuffer js (drop (i + 2) buffer) st'))))"
            by (auto intro: grows_trans)
          with I P False Next show ?thesis by (simp add: processBuffer.simps [of js buffer])
        next
          case (Finished st')
          with I P False d show ?thesis by (simp add: processBuffer.simps [of js buffer])
        next
          case (Raised e st')
          with I P False d show ?thesis by (simp add: processBuffer.simps [of js buffer])
        qed
      qed
    qed
  qed
qed

lemma readLoop_grows:
  "grows not_closing (emitted st) (emitted (outcome_state (readLoop js dec chunks d buffer st)))"
proof (induction chunks arbitrary: d buffer st)
  case Nil
  from processBuffer_grows [of st js "buffer @ decodeEnd dec d"]
  show ?case by (auto split: signal.splits)
next
  case (Cons c cs)
  obtain tx d' where dc: "decode dec d c = (tx, d')" by (cases "decode dec d c")
  from processBuffer_grows [of st js "buffer @ tx"] Cons.IH
  show ?case by (auto simp: dc split: signal.splits intro: grows_trans)
qed

lemma streamClaudeTurn_grows:
  "grows not_closing out (emitted (outcome_state (streamClaudeTurn js dec key r out n)))"
  unfolding streamClaudeTurn_def Let_def
  using readLoop_grows [of "\<lparr>assistantContent = Map.empty, toolCalls = [], pendingToolInputs = Map.empty,
                  emitted = out, uuids = n, decoded = []\<rparr>" js dec]
  by (auto simp: grows_refl split: fetched.splits option.splits)




lemma toolStep_thrown:
  assumes "runTool h (call_name call) (call_input call) (world st) = (Inl e, w)"
  shows "toolStep js h call st =
           Raised e (st\<lparr>sent := sent st @
                            [ToolCallEvent (call_id call) (call_name call) (call_input call)],
                        world := w\<rparr>)"
  using assms by (simp add: toolStep_def Let_def)


lemma toolStep_grows:
  "grows not_closing (sent st) (sent (signal_state (toolStep js h call st))) \<and>
   grows (\<lambda>m. True) (conversation st) (conversation (signal_state (toolStep js h call st)))"
  unfolding toolStep_def Let_def
  by (auto simp: grows_def not_closing_def closing_def split: prod.splits sum.splits)

lemma toolLoop_grows:
  "grows not_closing (sent st) (sent (signal_state (toolLoop js h calls st))) \<and>
   grows (\<lambda>m. True) (conversation st) (conversation (signal_state (toolLoop js h calls st)))"
proof (induction calls arbitrary: st)
  case Nil
  show ?case by (simp add: grows_refl)
next
  case (Cons call calls)
  show ?case
  proof (cases "toolStep js h call st")
    case (Next st')
    with toolStep_grows [of st js h call] Cons.IH [of st'] show ?thesis
      by (auto intro: grows_trans)
  next
    case (Finished st')
    with toolStep_grows [of st js h call] show ?thesis by simp
  next
    case (Raised e st')
    with toolStep_grows [of st js h call] show ?thesis by simp
  qed
qed

lemma agentLoop_grows:
  "agentLoop env script st = Some out \<Longrightarrow>
     grows not_closing (sent st) (sent (outcome_state out)) \<and>
     grows (\<lambda>m. True) (conversation st) (conversation (outcome_state out))"
proof (induction script arbitrary: st)
  case Nil
  then show ?case by simp
next
  case (Cons r rs)
  let ?turn = "streamClaudeTurn (env_js env) (env_decoder env) (env_apiKey env) r (sent st) (drawn st)"
  have tg: "grows not_closing (sent st) (emitted (outcome_state ?turn))"
    by (rule streamClaudeTurn_grows)
  show ?case
  proof (cases ?turn)
    case (Threw e ts)
    with Cons.prems tg show ?thesis by (auto simp: grows_refl)
  next
    case (Returned ts)
    let ?m = "\<lparr>role = Assistant, content = assistantContent ts\<rparr>"
    let ?st1 = "st\<lparr>conversation := conversation st @ [?m],
                   sent := emitted ts @ [MessageEvent ?m], drawn := uuids ts\<rparr>"
    have nc: "not_closing (MessageEvent ?m)" by (simp add: not_closing_def closing_def)
    from tg Returned have "grows not_closing (sent st) (emitted ts)" by simp
    then have s1: "grows not_closing (sent st) (sent ?st1)"
      using grows_snoc [where P = not_closing and x = "MessageEvent ?m" and xs = "emitted ts"] nc
      by (auto intro: grows_trans)
    have c1: "grows (\<lambda>m. True) (conversation st) (conversation ?st1)"
      by (simp add: grows_def)
    show ?thesis
    proof (cases "toolCalls ts = []")
      case True
      with Cons.prems Returned have "out = Returned ?st1" by (simp add: Let_def)
      with s1 c1 show ?thesis by simp
    next
      case False
      note tl = toolLoop_grows [of ?st1 "env_js env" "env_host env" "toolCalls ts"]
      show ?thesis
      proof (cases "toolLoop (env_js env) (env_host env) (toolCalls ts) ?st1")
        case (Next st2)
        with Cons.prems Returned False have "agentLoop env rs st2 = Some out" by (simp add: Let_def)
        from Cons.IH [OF this] tl Next s1 c1 show ?thesis
          by (auto intro: grows_trans)
      next
        case (Finished st2)
        with Cons.prems Returned False have "out = Returned st2" by (simp add: Let_def)
        with tl Finished s1 c1 show ?thesis by (auto intro: grows_trans)
      next
        case (Raised e st2)
        with Cons.prems Returned False have "out = Threw e st2" by (simp add: Let_def)
        with tl Raised s1 c1 show ?thesis by (auto intro: grows_trans)
      qed
    qed
  qed
qed

lemma createAgentResponse_shape:
  assumes "createAgentResponse env script prompt session w = Some st"
  shows "\<exists>pre ext. list_all not_closing pre \<and>
           conversation st =
             (case session of Some s \<Rightarrow> messages s | None \<Rightarrow> []) @
             [\<lparr>role = User, content = [0 \<mapsto> TextBlock prompt]\<rparr>] @ ext \<and>
           (sent st = pre @ [SessionEvent \<lparr>session_id = sessionIdOf env session,
                                         messages = conversation st\<rparr>, DoneEvent] \<or>
            (\<exists>m. sent st = pre @ [ErrorEvent m]))"
proof -
  let ?u = "\<lparr>role = User, content = [0 \<mapsto> TextBlock prompt]\<rparr> :: 'a AgentMessage"
  let ?c0 = "(case session of Some s \<Rightarrow> messages s | None \<Rightarrow> []) @ [?u]"
  let ?st0 = "\<lparr>conversation = ?c0, sent = [MessageEvent ?u],
              drawn = (case session of Some s \<Rightarrow> 0 | None \<Rightarrow> 1), world = w\<rparr>"
  from assms obtain out where al: "agentLoop env script ?st0 = Some out"
    and st: "st = finishExchange (sessionIdOf env session) out"
    unfolding createAgentResponse_def Let_def sessionIdOf_def by auto
  from agentLoop_grows [OF al] obtain new ext where
    new: "sent (outcome_state out) = [MessageEvent ?u] @ new" "list_all not_closing new"
    and ext: "conversation (outcome_state out) = ?c0 @ ext"
    unfolding grows_def by auto
  have pre: "list_all not_closing ([MessageEvent ?u] @ new)"
    using new(2) by (simp add: not_closing_def closing_def)
  show ?thesis
  proof (cases out)
    case (Returned s1)
    with st new ext pre show ?thesis by auto
  next
    case (Threw e s1)
    with st new ext pre show ?thesis by auto
  qed
qed






lemma not_closing_session: "\<not> not_closing (SessionEvent x)"
  by (simp add: not_closing_def closing_def)

lemma not_closing_done: "\<not> not_closing DoneEvent"
  by (simp add: not_closing_def closing_def)

lemma not_closing_error: "\<not> not_closing (ErrorEvent m)"
  by (simp add: not_closing_def closing_def)

lemma session_events_of_exchange:
  assumes "createAgentResponse env script prompt session w = Some st"
    and "SessionEvent snap \<in> set (sent st)"
  shows "snap = \<lparr>session_id = sessionIdOf env session, messages = conversation st\<rparr>"
proof -
  from createAgentResponse_shape [OF assms(1)] obtain pre where
    pre: "list_all not_closing pre"
    and shape: "sent st = pre @ [SessionEvent \<lparr>session_id = sessionIdOf env session,
                                              messages = conversation st\<rparr>, DoneEvent] \<or>
                (\<exists>m. sent st = pre @ [ErrorEvent m])"
    by blast
  from pre have "SessionEvent snap \<notin> set pre"
    using not_closing_session [of snap] by (auto simp: list_all_iff)
  with assms(2) shape show ?thesis by auto
qed


text \<open>
  C5. When the snapshot that an exchange sent is the session given to a second exchange,
  the conversation of the second begins with the whole conversation of the first, and
  every snapshot the second sends carries the id of the one it was given.
\<close>

theorem C5_session_round_trip:
  assumes "createAgentResponse env1 script1 prompt1 session1 w1 = Some st1"
    and "SessionEvent snap \<in> set (sent st1)"
    and "createAgentResponse env2 script2 prompt2 (Some snap) w2 = Some st2"
  shows "take (length (conversation st1)) (conversation st2) = conversation st1 \<and>
         (\<forall>snap2. SessionEvent snap2 \<in> set (sent st2) \<longrightarrow> session_id snap2 = session_id snap)"
proof -
  from session_events_of_exchange [OF assms(1,2)]
  have m: "messages snap = conversation st1" by simp
  from createAgentResponse_shape [OF assms(3)] obtain ext where
    "conversation st2 = messages snap @ [\<lparr>role = User, content = [0 \<mapsto> TextBlock prompt2]\<rparr>] @ ext"
    by auto
  with m have prefix: "take (length (conversation st1)) (conversation st2) = conversation st1"
    by simp
  have ids: "\<forall>snap2. SessionEvent snap2 \<in> set (sent st2) \<longrightarrow> session_id snap2 = session_id snap"
  proof (intro allI impI)
    fix snap2
    assume "SessionEvent snap2 \<in> set (sent st2)"
    from session_events_of_exchange [OF assms(3) this]
    show "session_id snap2 = session_id snap" by (simp add: sessionIdOf_def)
  qed
  from prefix ids show ?thesis by simp
qed








text \<open>C5 on two exchanges of one text turn each.\<close>

theorem C5_witness:
  "\<exists>st1 snap st2.
     createAgentResponse fixture_env [Resolved (ok_response [text_transcript])] ''hello'' None 0 =
       Some st1 \<and>
     SessionEvent snap \<in> set (sent st1) \<and>
     createAgentResponse fixture_env [Resolved (ok_response [text_transcript])] ''again''
       (Some snap) 0 = Some st2 \<and>
     take (length (conversation st1)) (conversation st2) = conversation st1 \<and>
     map role (conversation st1) = [User, Assistant] \<and>
     map role (conversation st2) = [User, Assistant, User, Assistant]"
proof -
  let ?ex1 = "createAgentResponse fixture_env [Resolved (ok_response [text_transcript])] ''hello'' None 0"
  let ?snap = "\<lparr>session_id = sessionIdOf fixture_env None, messages = conversation (the ?ex1)\<rparr>"
  let ?ex2 = "createAgentResponse fixture_env [Resolved (ok_response [text_transcript])] ''again''
       (Some ?snap) 0"
  have "?ex1 \<noteq> None" by code_simp
  then obtain st1 where st1: "?ex1 = Some st1" by blast
  have "?ex2 \<noteq> None" by code_simp
  then obtain st2 where st2: "?ex2 = Some st2" by blast
  have "eventType (last (sent (the ?ex1))) = ''done''" by code_simp
  with st1 have last_done: "eventType (last (sent st1)) = ''done''" by simp
  from createAgentResponse_shape [OF st1] obtain pre where
    "sent st1 = pre @ [SessionEvent \<lparr>session_id = sessionIdOf fixture_env None,
                                     messages = conversation st1\<rparr>, DoneEvent] \<or>
     (\<exists>m. sent st1 = pre @ [ErrorEvent m])"
    by blast
  with last_done have "SessionEvent \<lparr>session_id = sessionIdOf fixture_env None,
                                     messages = conversation st1\<rparr> \<in> set (sent st1)"
    by auto
  with st1 have snap: "SessionEvent ?snap \<in> set (sent st1)" by simp
  have r1: "map role (conversation (the ?ex1)) = [User, Assistant]" by code_simp
  have r2: "map role (conversation (the ?ex2)) = [User, Assistant, User, Assistant]" by code_simp
  from C5_session_round_trip [OF st1 snap st2] st1 snap st2 r1 r2
  show ?thesis by (intro exI [of _ st1] exI [of _ ?snap] exI [of _ st2]) simp
qed


end
